theory Spec2Isabelle
  imports Main "HOL-Library.Char_ord" "HOL-Library.List_Lexorder" "HOL-Library.Sublist"
begin

section \<open>The custom image host of multipass (src/daemon/custom\_image\_host.cpp)\<close>

text \<open>
  A shallow embedding of \<^verbatim>\<open>custom_image_host.cpp\<close>. A \<^verbatim>\<open>QString\<close> and a
  \<^verbatim>\<open>std::string\<close> are both a \<^typ>\<open>string\<close> (a list of 8-bit code units, so the
  conversions between the two are the identity); a C++ exception is the \<open>Inl\<close> of a sum;
  a pointer into the vector of image records is the index of the record.
\<close>

subsection \<open>Exceptions\<close>

datatype error =
    DownloadException string
  | UnsupportedRemoteException string
  | UnsupportedAliasException string string
  | RuntimeError string
  | AssertionFailure string
  | DanglingPointer

subsection \<open>Data\<close>

record BaseImageInfo =
  base_last_modified :: string
  base_hash :: string

record CustomImageInfo =
  url_prefix :: string
  ci_aliases :: "string list"
  ci_os :: string
  ci_release :: string
  release_string :: string

text \<open>
  Modelled from the spec: \<^verbatim>\<open>mp::VMImageInfo\<close>, which a header outside this file
  declares. It has the eleven fields of the specification's image record, in the order
  in which \<^verbatim>\<open>full_image_info_for\<close> initialises them. The fields \<^verbatim>\<open>id\<close> and
  \<^verbatim>\<open>size\<close> are \<open>id_hash\<close> and \<open>size_bytes\<close> here.
\<close>

record VMImageInfo =
  aliases :: "string list"
  os :: string
  release :: string
  release_title :: string
  supported :: bool
  image_location :: string
  id_hash :: string
  stream_location :: string
  version :: string
  size_bytes :: int
  verify :: bool

text \<open>\<^verbatim>\<open>mp::VMImageInfo{}\<close>: every member value-initialised.\<close>

definition default_VMImageInfo :: VMImageInfo where
  "default_VMImageInfo =
     \<lparr>aliases = [], os = [], release = [], release_title = [], supported = False,
      image_location = [], id_hash = [], stream_location = [], version = [],
      size_bytes = 0, verify = False\<rparr>"

definition is_default_constructed :: "VMImageInfo \<Rightarrow> bool" where
  "is_default_constructed image_info \<longleftrightarrow> image_info = default_VMImageInfo"

text \<open>
  Modelled from the spec: \<^verbatim>\<open>mp::CustomManifest\<close>, declared in the header of this
  file. It owns the vector \<^verbatim>\<open>products\<close> and the unordered map
  \<^verbatim>\<open>image_records\<close> from a key to a pointer into \<^verbatim>\<open>products\<close>, which
  \<^verbatim>\<open>full_image_info_for\<close> hands to its constructor in this order.
\<close>

record CustomManifest =
  products :: "VMImageInfo list"
  image_records :: "string \<rightharpoonup> nat"

subsection \<open>The operations of QString that the code uses\<close>

text \<open>\<^verbatim>\<open>QChar::isSpace\<close> on the code units below 256.\<close>

definition QChar_isSpace :: "char \<Rightarrow> bool" where
  "QChar_isSpace c \<longleftrightarrow>
     (let u = (of_char c :: nat)
      in u = 32 \<or> (9 \<le> u \<and> u \<le> 13) \<or> u = 133 \<or> u = 160)"

definition QString_trimmed :: "string \<Rightarrow> string" where
  "QString_trimmed s = rev (dropWhile QChar_isSpace (rev (dropWhile QChar_isSpace s)))"

definition QString_endsWith :: "string \<Rightarrow> string \<Rightarrow> bool" where
  "QString_endsWith s t \<longleftrightarrow> length t \<le> length s \<and> drop (length s - length t) s = t"

text \<open>\<^verbatim>\<open>QString::split(sep)\<close> keeps the empty parts.\<close>

fun QString_split :: "char \<Rightarrow> string \<Rightarrow> string list" where
  "QString_split sep [] = [[]]"
| "QString_split sep (c # cs) =
     (if c = sep then [] # QString_split sep cs
      else (case QString_split sep cs of
              [] \<Rightarrow> [[c]]
            | w # ws \<Rightarrow> (c # w) # ws))"

text \<open>\<^verbatim>\<open>QList::first()\<close> asserts that the list is not empty.\<close>

definition QList_first :: "'a list \<Rightarrow> error + 'a" where
  "QList_first xs = (case xs of [] \<Rightarrow> Inl (AssertionFailure ''!isEmpty()'') | x # _ \<Rightarrow> Inr x)"

subsection \<open>The downloader\<close>

text \<open>
  Modelled from the spec: \<^verbatim>\<open>mp::URLDownloader\<close>, a capability with two
  operations, \<^verbatim>\<open>last_modified(url)\<close> for a timestamp and \<^verbatim>\<open>download(url)\<close> for
  the content as text; each returns or throws. The type \<open>'t\<close> is the timestamp
  (\<^verbatim>\<open>QDateTime\<close>).
\<close>

record 't URLDownloader =
  last_modified :: "string \<Rightarrow> error + 't"
  download :: "string \<Rightarrow> error + string"

subsection \<open>The metadata of one image\<close>

text \<open>
  The loop of \<^verbatim>\<open>base_image_info_for\<close> over the lines of the checksum file: the first
  line that matches sets \<^verbatim>\<open>hash\<close> and leaves the loop; with no such line
  \<^verbatim>\<open>hash\<close> keeps its initial value, the empty string.
\<close>

fun base_image_info_for_loop :: "string \<Rightarrow> string list \<Rightarrow> error + string" where
  "base_image_info_for_loop image_file [] = Inr []"
| "base_image_info_for_loop image_file (line # sha256_sums) =
     (if QString_endsWith (QString_trimmed line) image_file
      then QList_first (QString_split (CHR '' '') line)
      else base_image_info_for_loop image_file sha256_sums)"

text \<open>
  \<open>to_yyyyMMdd\<close> is \<^verbatim>\<open>QLocale::c().toString(_, "yyyyMMdd")\<close>.
\<close>

definition base_image_info_for ::
  "('t \<Rightarrow> string) \<Rightarrow> 't URLDownloader \<Rightarrow> string \<Rightarrow> string \<Rightarrow> string \<Rightarrow> error + BaseImageInfo"
where
  "base_image_info_for to_yyyyMMdd url_downloader image_url hash_url image_file =
     (case last_modified url_downloader image_url of
        Inl e \<Rightarrow> Inl e
      | Inr t \<Rightarrow>
          (case download url_downloader hash_url of
             Inl e \<Rightarrow> Inl e
           | Inr text \<Rightarrow>
               (case base_image_info_for_loop image_file (QString_split (CHR 10) text) of
                  Inl e \<Rightarrow> Inl e
                | Inr hash \<Rightarrow>
                    Inr \<lparr>base_last_modified = to_yyyyMMdd t, base_hash = hash\<rparr>)))"

subsection \<open>The static catalogue\<close>

text \<open>
  A \<^verbatim>\<open>QMap\<close> keeps its entries sorted by key, one entry for each key: it is the
  list of its entries in that order. \<^verbatim>\<open>QMap::insert\<close> replaces the value of a key
  that is present; the constructor from an initializer list inserts the pairs one after
  the other; \<^verbatim>\<open>operator[]\<close> of a constant map returns a default-constructed value for
  a key that is absent; \<^verbatim>\<open>toStdMap\<close> copies the entries in key order.
\<close>

type_synonym ('k, 'v) QMap = "('k \<times> 'v) list"

fun QMap_insert :: "'k::linorder \<Rightarrow> 'v \<Rightarrow> ('k, 'v) QMap \<Rightarrow> ('k, 'v) QMap" where
  "QMap_insert k v [] = [(k, v)]"
| "QMap_insert k v ((k', v') # m) =
     (if k < k' then (k, v) # (k', v') # m
      else if k = k' then (k, v) # m
      else (k', v') # QMap_insert k v m)"

definition QMap_of :: "('k::linorder \<times> 'v) list \<Rightarrow> ('k, 'v) QMap" where
  "QMap_of entries = foldl (\<lambda>m (k, v). QMap_insert k v m) [] entries"

definition QMap_value :: "('k, 'v) QMap \<Rightarrow> 'k \<Rightarrow> 'v \<Rightarrow> 'v" where
  "QMap_value m k dflt = (case map_of m k of None \<Rightarrow> dflt | Some v \<Rightarrow> v)"

definition toStdMap :: "('k, 'v) QMap \<Rightarrow> ('k \<times> 'v) list" where
  "toStdMap m = m"

definition no_remote :: string where
  "no_remote = []"

definition multipass_image_info :: "(string, (string, CustomImageInfo) QMap) QMap" where
  "multipass_image_info =
     QMap_of
      [(''x86_64'',
        QMap_of
         [(''ubuntu-core-16-amd64.img.xz'',
           \<lparr>url_prefix = ''https://cdimage.ubuntu.com/ubuntu-core/16/stable/current/'',
            ci_aliases = [''core'', ''core16''], ci_os = ''Ubuntu'',
            ci_release = ''core-16'', release_string = ''Core 16''\<rparr>),
          (''ubuntu-core-18-amd64.img.xz'',
           \<lparr>url_prefix = ''https://cdimage.ubuntu.com/ubuntu-core/18/stable/current/'',
            ci_aliases = [''core18''], ci_os = ''Ubuntu'',
            ci_release = ''core-18'', release_string = ''Core 18''\<rparr>),
          (''ubuntu-core-20-amd64.img.xz'',
           \<lparr>url_prefix = ''https://cdimage.ubuntu.com/ubuntu-core/20/stable/current/'',
            ci_aliases = [''core20''], ci_os = ''Ubuntu'',
            ci_release = ''core-20'', release_string = ''Core 20''\<rparr>),
          (''ubuntu-core-22-amd64.img.xz'',
           \<lparr>url_prefix = ''https://cdimage.ubuntu.com/ubuntu-core/22/stable/current/'',
            ci_aliases = [''core22''], ci_os = ''Ubuntu'',
            ci_release = ''core-22'', release_string = ''Core 22''\<rparr>)])]"

subsection \<open>The alias index\<close>

text \<open>
  The loop of \<^verbatim>\<open>map_aliases_to_vm_info_for\<close>; \<open>i\<close> is the position of the record
  \<open>img\<close> in the vector, which stands for the pointer \<^verbatim>\<open>&image\<close>. \<^verbatim>\<open>map[key] = &image\<close>
  inserts the key or overwrites its value.
\<close>

fun map_aliases_loop :: "nat \<Rightarrow> VMImageInfo list \<Rightarrow> (string \<rightharpoonup> nat) \<Rightarrow> (string \<rightharpoonup> nat)" where
  "map_aliases_loop i [] m = m"
| "map_aliases_loop i (img # images) m =
     map_aliases_loop (Suc i) images
       (if \<not> is_default_constructed img
        then fold (\<lambda>alias m'. m'(alias \<mapsto> i)) (aliases img) (m(id_hash img \<mapsto> i))
        else m)"

definition map_aliases_to_vm_info_for :: "VMImageInfo list \<Rightarrow> (string \<rightharpoonup> nat)" where
  "map_aliases_to_vm_info_for images = map_aliases_loop 0 images Map.empty"

subsection \<open>Building a manifest\<close>

text \<open>
  The body of the lambda \<^verbatim>\<open>fetch_one_image_info_and_write_to_index\<close>: it either
  throws what \<^verbatim>\<open>base_image_info_for\<close> throws, or writes the record of the image
  into slot \<open>index\<close> of \<^verbatim>\<open>default_images\<close>.
\<close>

definition fetch_one_image_info_and_write_to_index ::
  "('t \<Rightarrow> string) \<Rightarrow> nat \<Rightarrow> 't URLDownloader \<Rightarrow> string \<times> CustomImageInfo \<Rightarrow>
     VMImageInfo list \<Rightarrow> error + VMImageInfo list"
where
  "fetch_one_image_info_and_write_to_index to_yyyyMMdd index url_downloader image_info_pair
       default_images =
     (let image_file_name = fst image_info_pair;
          custom_image_info = snd image_info_pair;
          image_url = url_prefix custom_image_info @ fst image_info_pair;
          hash_url = url_prefix custom_image_info @ ''SHA256SUMS''
      in case base_image_info_for to_yyyyMMdd url_downloader image_url hash_url image_file_name of
           Inl e \<Rightarrow> Inl e
         | Inr base_image_info \<Rightarrow>
             Inr (default_images[index :=
               \<lparr>aliases = ci_aliases custom_image_info,
                os = ci_os custom_image_info,
                release = ci_release custom_image_info,
                release_title = release_string custom_image_info,
                supported = True,
                image_location = image_url,
                id_hash = base_hash base_image_info,
                stream_location = [],
                version = base_last_modified base_image_info,
                size_bytes = 0,
                verify = True\<rparr>]))"

text \<open>
  The tasks run concurrently. A task reads nothing that another one writes (its slot of
  \<^verbatim>\<open>default_images\<close> apart), so a run is the order in which the tasks complete: a
  list of task numbers, the \<open>schedule\<close>. The state of a build is the vector of records
  and the vector of futures; a future is \<open>None\<close> while its task runs, then holds
  the outcome of the task.
\<close>

record build_state =
  default_images :: "VMImageInfo list"
  empty_futures :: "(error + unit) option list"

definition complete_task ::
  "('t \<Rightarrow> string) \<Rightarrow> 't URLDownloader \<Rightarrow> (string \<times> CustomImageInfo) list \<Rightarrow> nat \<Rightarrow>
     build_state \<Rightarrow> build_state"
where
  "complete_task to_yyyyMMdd url_downloader tasks index st =
     (if index < length tasks then
        (case fetch_one_image_info_and_write_to_index to_yyyyMMdd index url_downloader
                (tasks ! index) (default_images st) of
           Inl e \<Rightarrow> st\<lparr>empty_futures := (empty_futures st)[index := Some (Inl e)]\<rparr>
         | Inr images \<Rightarrow>
             st\<lparr>default_images := images,
                empty_futures := (empty_futures st)[index := Some (Inr ())]\<rparr>)
      else st)"

fun run_tasks ::
  "('t \<Rightarrow> string) \<Rightarrow> 't URLDownloader \<Rightarrow> (string \<times> CustomImageInfo) list \<Rightarrow> nat list \<Rightarrow>
     build_state \<Rightarrow> build_state"
where
  "run_tasks to_yyyyMMdd url_downloader tasks [] st = st"
| "run_tasks to_yyyyMMdd url_downloader tasks (index # schedule) st =
     run_tasks to_yyyyMMdd url_downloader tasks schedule
       (complete_task to_yyyyMMdd url_downloader tasks index st)"

text \<open>
  The loop over \<^verbatim>\<open>empty_future.get()\<close>: \<^verbatim>\<open>get\<close> waits for its task and rethrows
  what the task threw. The futures that are left when an exception leaves the loop are
  destroyed, and the destructor of a future of \<^verbatim>\<open>std::async\<close> waits for its task
  too. \<open>None\<close> is a wait that never ends.
\<close>

fun join_futures :: "(error + unit) option list \<Rightarrow> (error + unit) option" where
  "join_futures [] = Some (Inr ())"
| "join_futures (None # futures) = None"
| "join_futures (Some (Inl e) # futures) =
     (if list_all (\<lambda>f. f \<noteq> None) futures then Some (Inl e) else None)"
| "join_futures (Some (Inr u) # futures) = join_futures futures"

definition full_image_info_for ::
  "('t \<Rightarrow> string) \<Rightarrow> nat list \<Rightarrow> (string, CustomImageInfo) QMap \<Rightarrow> 't URLDownloader \<Rightarrow>
     (error + CustomManifest) option"
where
  "full_image_info_for to_yyyyMMdd schedule custom_image_info url_downloader =
     (let st0 = \<lparr>default_images = replicate (length custom_image_info) default_VMImageInfo,
                 empty_futures = replicate (length custom_image_info) None\<rparr>;
          st = run_tasks to_yyyyMMdd url_downloader (toStdMap custom_image_info) schedule st0
      in case join_futures (empty_futures st) of
           None \<Rightarrow> None
         | Some (Inl e) \<Rightarrow> Some (Inl e)
         | Some (Inr u) \<Rightarrow>
             Some (Inr \<lparr>products = default_images st,
                        image_records = map_aliases_to_vm_info_for (default_images st)\<rparr>))"

subsection \<open>The host\<close>

text \<open>
  What \<^verbatim>\<open>CustomVMImageHost\<close> is given and never changes: its architecture, the
  downloader, the date format, and the predicates of the platform behind the base class
  \<^verbatim>\<open>CommonVMImageHost\<close>.
\<close>

record 't env =
  arch :: string
  url_downloader :: "'t URLDownloader"
  format_date :: "'t \<Rightarrow> string"
  is_remote_supported :: "string \<Rightarrow> bool"
  is_alias_supported :: "string \<Rightarrow> string \<Rightarrow> bool"
  alias_verifies_image_is_supported :: "string list \<Rightarrow> string \<Rightarrow> bool"

text \<open>
  What the host changes: the cache \<^verbatim>\<open>custom_image_info\<close> from a remote name to
  its manifest. Two more fields record what the host does to the outside: the operations
  on \<^verbatim>\<open>custom_image_info_mutex\<close> and on the cache, in order, and the messages handed
  to \<^verbatim>\<open>on_manifest_update_failure\<close>.
\<close>

datatype cache_event = Acquire | Release | Find string | Emplace string | Clear

record host_state =
  custom_image_info :: "string \<rightharpoonup> CustomManifest"
  mutex_trace :: "cache_event list"
  update_failures :: "string list"

text \<open>
  Modelled from the spec: \<^verbatim>\<open>mp::Query\<close>, declared outside this file; the code
  reads its fields \<^verbatim>\<open>release\<close> (here \<open>query_release\<close>) and
  \<^verbatim>\<open>remote_name\<close>.
\<close>

record Query =
  query_release :: string
  remote_name :: string

text \<open>
  Modelled from the spec: \<^verbatim>\<open>check_remote_is_supported(name)\<close> of the base class
  \<^verbatim>\<open>CommonVMImageHost\<close>, whose code is not in this file. It fails if the remote is
  unknown; \<^verbatim>\<open>fetch_manifests\<close> catches the failure as
  \<^verbatim>\<open>UnsupportedRemoteException\<close>.
\<close>

definition check_remote_is_supported :: "'t env \<Rightarrow> string \<Rightarrow> error + unit" where
  "check_remote_is_supported env remote =
     (if is_remote_supported env remote then Inr ()
      else Inl (UnsupportedRemoteException remote))"

text \<open>
  Modelled from the spec: \<^verbatim>\<open>check_alias_is_supported(alias, remote)\<close> of the base
  class, whose code is not in this file. It fails if the alias is unknown for the remote.
\<close>

definition check_alias_is_supported :: "'t env \<Rightarrow> string \<Rightarrow> string \<Rightarrow> error + unit" where
  "check_alias_is_supported env alias remote =
     (if is_alias_supported env alias remote then Inr ()
      else Inl (UnsupportedAliasException alias remote))"

text \<open>
  Modelled from the spec: \<^verbatim>\<open>on_manifest_update_failure(message)\<close> of the base class
  is invoked, not thrown; it is the failure sink.
\<close>

definition on_manifest_update_failure :: "string \<Rightarrow> host_state \<Rightarrow> host_state" where
  "on_manifest_update_failure details s = s\<lparr>update_failures := update_failures s @ [details]\<rparr>"

text \<open>
  The cache is a mapping from a remote name to its manifest, a map with unique keys of
  the standard library (the code calls \<^verbatim>\<open>emplace\<close>, \<^verbatim>\<open>find\<close>, \<^verbatim>\<open>clear\<close> and
  reads \<^verbatim>\<open>it->second\<close>). \<^verbatim>\<open>emplace\<close> of such a map inserts the pair when the key
  is absent and changes nothing when it is present.
\<close>

definition emplace :: "'k \<Rightarrow> 'v \<Rightarrow> ('k \<rightharpoonup> 'v) \<Rightarrow> ('k \<rightharpoonup> 'v)" where
  "emplace k v m = (case m k of None \<Rightarrow> m(k \<mapsto> v) | Some old \<Rightarrow> m)"

definition manifest_from :: "'t env \<Rightarrow> string \<Rightarrow> host_state \<Rightarrow> (error + CustomManifest) \<times> host_state" where
  "manifest_from env remote s =
     (case check_remote_is_supported env remote of
        Inl e \<Rightarrow> (Inl e, s)
      | Inr u \<Rightarrow>
          (let s' = s\<lparr>mutex_trace := mutex_trace s @ [Acquire, Find remote, Release]\<rparr>
           in case custom_image_info s remote of
                None \<Rightarrow>
                  (Inl (RuntimeError (''Remote '' @ [CHR 0x22] @ remote @ [CHR 0x22] @
                     '' is unknown or unreachable.'')), s')
              | Some manifest \<Rightarrow> (Inr manifest, s')))"

text \<open>
  \<^verbatim>\<open>*it->second\<close> reads through the pointer that the index holds. An index outside
  the vector is a pointer to no record; no manifest that \<open>full_image_info_for\<close> builds
  has one (lemma \<open>full_image_info_for_index_in_range\<close>), and the model makes the read an
  error.
\<close>

definition deref :: "CustomManifest \<Rightarrow> nat \<Rightarrow> error + VMImageInfo" where
  "deref manifest i =
     (if i < length (products manifest) then Inr (products manifest ! i)
      else Inl DanglingPointer)"

definition info_for :: "'t env \<Rightarrow> Query \<Rightarrow> host_state \<Rightarrow> (error + VMImageInfo option) \<times> host_state" where
  "info_for env query s =
     (case check_alias_is_supported env (query_release query) (remote_name query) of
        Inl e \<Rightarrow> (Inl e, s)
      | Inr u \<Rightarrow>
          (case manifest_from env (remote_name query) s of
             (Inl e, s') \<Rightarrow> (Inl e, s')
           | (Inr custom_manifest, s') \<Rightarrow>
               (case image_records custom_manifest (query_release query) of
                  None \<Rightarrow> (Inr None, s')
                | Some i \<Rightarrow>
                    (case deref custom_manifest i of
                       Inl e \<Rightarrow> (Inl e, s')
                     | Inr info \<Rightarrow> (Inr (Some info), s')))))"

definition all_info_for ::
  "'t env \<Rightarrow> Query \<Rightarrow> host_state \<Rightarrow> (error + (string \<times> VMImageInfo) list) \<times> host_state"
where
  "all_info_for env query s =
     (case info_for env query s of
        (Inl e, s') \<Rightarrow> (Inl e, s')
      | (Inr None, s') \<Rightarrow> (Inr [], s')
      | (Inr (Some img), s') \<Rightarrow> (Inr [(remote_name query, img)], s'))"

definition info_for_full_hash_impl :: "string \<Rightarrow> host_state \<Rightarrow> (error + VMImageInfo) \<times> host_state" where
  "info_for_full_hash_impl full_hash s = (Inr default_VMImageInfo, s)"

definition all_images_for ::
  "'t env \<Rightarrow> string \<Rightarrow> bool \<Rightarrow> host_state \<Rightarrow> (error + VMImageInfo list) \<times> host_state"
where
  "all_images_for env remote allow_unsupported s =
     (case manifest_from env remote s of
        (Inl e, s') \<Rightarrow> (Inl e, s')
      | (Inr custom_manifest, s') \<Rightarrow>
          (Inr (filter (\<lambda>product. alias_verifies_image_is_supported env (aliases product) remote)
                  (products custom_manifest)), s'))"

definition supported_remotes :: "string list" where
  "supported_remotes = [no_remote]"

text \<open>
  The body of the loop of \<^verbatim>\<open>fetch_manifests\<close> for one \<open>spec\<close>, a remote name and its
  catalogue. \<open>None\<close>: the build waits for a task for ever. Otherwise the outcome is
  \<open>Inr ()\<close> when the iteration ends (also through a \<^verbatim>\<open>catch\<close>), and \<open>Inl e\<close> when
  an exception that no \<^verbatim>\<open>catch\<close> clause names leaves the function.
\<close>

definition fetch_manifests_body ::
  "'t env \<Rightarrow> nat list \<Rightarrow> string \<times> (string, CustomImageInfo) QMap \<Rightarrow> host_state \<Rightarrow>
     ((error + unit) \<times> host_state) option"
where
  "fetch_manifests_body env schedule spec s =
     (case check_remote_is_supported env (fst spec) of
        Inl e \<Rightarrow> Some (Inr (), s)
      | Inr u \<Rightarrow>
          (case full_image_info_for (format_date env) schedule (snd spec) (url_downloader env) of
             None \<Rightarrow> None
           | Some (Inr custom_manifest) \<Rightarrow>
               Some (Inr (),
                 s\<lparr>custom_image_info := emplace (fst spec) custom_manifest (custom_image_info s),
                   mutex_trace := mutex_trace s @ [Acquire, Emplace (fst spec), Release]\<rparr>)
           | Some (Inl (DownloadException what)) \<Rightarrow> Some (Inr (), on_manifest_update_failure what s)
           | Some (Inl (UnsupportedRemoteException r)) \<Rightarrow> Some (Inr (), s)
           | Some (Inl e) \<Rightarrow> Some (Inl e, s)))"

definition fetch_manifests ::
  "'t env \<Rightarrow> nat list \<Rightarrow> host_state \<Rightarrow> ((error + unit) \<times> host_state) option"
where
  "fetch_manifests env schedule s =
     fetch_manifests_body env schedule
       (no_remote, QMap_value multipass_image_info (arch env) []) s"

definition clear :: "host_state \<Rightarrow> host_state" where
  "clear s =
     s\<lparr>custom_image_info := Map.empty,
       mutex_trace := mutex_trace s @ [Acquire, Clear, Release]\<rparr>"

subsection \<open>Notions the properties are stated with\<close>

text \<open>
  A schedule of \<open>n\<close> tasks: every task completes, once.
\<close>

definition is_schedule :: "nat \<Rightarrow> nat list \<Rightarrow> bool" where
  "is_schedule n schedule \<longleftrightarrow> distinct schedule \<and> set schedule = {0..<n}"

text \<open>
  The record of one catalogue entry, as the specification describes it: the entry's
  fields, the flags, the URL of the image, and the hash and date that the metadata
  fetcher returns.
\<close>

definition image_record_of ::
  "('t \<Rightarrow> string) \<Rightarrow> 't URLDownloader \<Rightarrow> string \<times> CustomImageInfo \<Rightarrow> error + VMImageInfo"
where
  "image_record_of to_yyyyMMdd downloader entry =
     (case base_image_info_for to_yyyyMMdd downloader
             (url_prefix (snd entry) @ fst entry) (url_prefix (snd entry) @ ''SHA256SUMS'')
             (fst entry) of
        Inl e \<Rightarrow> Inl e
      | Inr b \<Rightarrow>
          Inr \<lparr>aliases = ci_aliases (snd entry), os = ci_os (snd entry),
               release = ci_release (snd entry), release_title = release_string (snd entry),
               supported = True, image_location = url_prefix (snd entry) @ fst entry,
               id_hash = base_hash b, stream_location = [],
               version = base_last_modified b, size_bytes = 0, verify = True\<rparr>)"

text \<open>
  The sequential build of the specification: the records of the entries in the order
  of the list, or the failure of the first entry whose fetch fails.
\<close>

fun sequential_records ::
  "('t \<Rightarrow> string) \<Rightarrow> 't URLDownloader \<Rightarrow> (string \<times> CustomImageInfo) list \<Rightarrow>
     error + VMImageInfo list"
where
  "sequential_records to_yyyyMMdd downloader [] = Inr []"
| "sequential_records to_yyyyMMdd downloader (entry # entries) =
     (case image_record_of to_yyyyMMdd downloader entry of
        Inl e \<Rightarrow> Inl e
      | Inr r \<Rightarrow>
          (case sequential_records to_yyyyMMdd downloader entries of
             Inl e \<Rightarrow> Inl e
           | Inr rs \<Rightarrow> Inr (r # rs)))"

definition manifest_of :: "VMImageInfo list \<Rightarrow> CustomManifest" where
  "manifest_of images =
     \<lparr>products = images, image_records = map_aliases_to_vm_info_for images\<rparr>"

text \<open>The keys under which the index files a record: its identifier and its aliases.\<close>

definition keys_of :: "VMImageInfo \<Rightarrow> string list" where
  "keys_of img = id_hash img # aliases img"

text \<open>Every pointer of the index of a manifest points into its vector of records.\<close>

definition index_in_range :: "CustomManifest \<Rightarrow> bool" where
  "index_in_range manifest \<longleftrightarrow>
     (\<forall>key i. image_records manifest key = Some i \<longrightarrow> i < length (products manifest))"

text \<open>
  The contract of the downloader in the specification: each of its two operations may
  fail with a download failure, and with nothing else.
\<close>

definition fails_only_with_DownloadException :: "'t URLDownloader \<Rightarrow> bool" where
  "fails_only_with_DownloadException downloader \<longleftrightarrow>
     (\<forall>url e. last_modified downloader url = Inl e \<longrightarrow> (\<exists>what. e = DownloadException what)) \<and>
     (\<forall>url e. download downloader url = Inl e \<longrightarrow> (\<exists>what. e = DownloadException what))"

subsection \<open>Fixtures of the concrete instances\<close>

text \<open>
  A host for \<^verbatim>\<open>x86_64\<close> whose platform knows the one remote of this host, every
  alias but \<^verbatim>\<open>unsupported\<close>, and takes an image for supported unless
  \<^verbatim>\<open>core18\<close> is among its aliases; the downloader dates every image to 31 January
  2024, and its \<open>download\<close> is the argument.
\<close>

definition example_env :: "(string \<Rightarrow> error + string) \<Rightarrow> unit env" where
  "example_env dl =
     \<lparr>arch = ''x86_64'',
      url_downloader = \<lparr>last_modified = (\<lambda>url. Inr ()), download = dl\<rparr>,
      format_date = (\<lambda>t. ''20240131''),
      is_remote_supported = (\<lambda>remote. remote = no_remote),
      is_alias_supported = (\<lambda>alias remote. alias \<noteq> ''unsupported''),
      alias_verifies_image_is_supported = (\<lambda>aliases remote. ''core18'' \<notin> set aliases)\<rparr>"

text \<open>A checksum listing with a line for each image of the catalogue.\<close>

definition example_listing :: string where
  "example_listing =
     ''a16 *ubuntu-core-16-amd64.img.xz'' @ [CHR 10] @
     ''b18 *ubuntu-core-18-amd64.img.xz'' @ [CHR 10] @
     ''c20 *ubuntu-core-20-amd64.img.xz'' @ [CHR 10] @
     ''d22 *ubuntu-core-22-amd64.img.xz'' @ [CHR 10]"

text \<open>A download that fails for the checksum listing of Core 20 alone.\<close>

definition example_failing_download :: "string \<Rightarrow> error + string" where
  "example_failing_download url =
     (if url = ''https://cdimage.ubuntu.com/ubuntu-core/20/stable/current/SHA256SUMS''
      then Inl (DownloadException ''timeout'')
      else Inr example_listing)"

text \<open>The record of the image of Core \<open>n\<close> with the given aliases and hash.\<close>

definition example_record :: "string \<Rightarrow> string list \<Rightarrow> string \<Rightarrow> VMImageInfo" where
  "example_record n als hash =
     \<lparr>aliases = als, os = ''Ubuntu'', release = ''core-'' @ n, release_title = ''Core '' @ n,
      supported = True,
      image_location = ''https://cdimage.ubuntu.com/ubuntu-core/'' @ n @
        ''/stable/current/ubuntu-core-'' @ n @ ''-amd64.img.xz'',
      id_hash = hash, stream_location = [], version = ''20240131'', size_bytes = 0,
      verify = True\<rparr>"

definition example_images :: "VMImageInfo list" where
  "example_images =
     [example_record ''16'' [''core'', ''core16''] ''a16'',
      example_record ''18'' [''core18''] ''b18'',
      example_record ''20'' [''core20''] ''c20'',
      example_record ''22'' [''core22''] ''d22'']"

text \<open>The same images when the checksum listing has no line for any of them.\<close>

definition example_images_no_hash :: "VMImageInfo list" where
  "example_images_no_hash =
     [example_record ''16'' [''core'', ''core16''] [],
      example_record ''18'' [''core18''] [],
      example_record ''20'' [''core20''] [],
      example_record ''22'' [''core22''] []]"

definition example_state :: "VMImageInfo list \<Rightarrow> host_state" where
  "example_state images =
     \<lparr>custom_image_info = [no_remote \<mapsto> manifest_of images], mutex_trace = [],
      update_failures = []\<rparr>"

definition empty_state :: host_state where
  "empty_state = \<lparr>custom_image_info = Map.empty, mutex_trace = [], update_failures = []\<rparr>"

section \<open>Properties\<close>

subsection \<open>The checksum line of an image\<close>

lemma QString_split_not_Nil: "QString_split sep s \<noteq> []"
  by (induction s) (auto split: list.splits)

lemma hd_QString_split: "hd (QString_split sep s) = takeWhile (\<lambda>c. c \<noteq> sep) s"
  by (induction s) (auto split: list.splits simp: QString_split_not_Nil)

lemma QList_first_QString_split:
  "QList_first (QString_split sep s) = Inr (takeWhile (\<lambda>c. c \<noteq> sep) s)"
  using hd_QString_split [of sep s] QString_split_not_Nil [of sep s]
  by (cases "QString_split sep s") (simp_all add: QList_first_def)

lemma QString_endsWith_suffix: "QString_endsWith s t \<longleftrightarrow> suffix t s"
  unfolding QString_endsWith_def
  by (metis suffix_def append_eq_conv_conj diff_add_inverse2 length_append suffix_drop
      suffix_length_le)

lemma base_image_info_for_loop_find:
  "base_image_info_for_loop image_file sha256_sums =
     Inr (case find (\<lambda>line. suffix image_file (QString_trimmed line)) sha256_sums of
            None \<Rightarrow> []
          | Some line \<Rightarrow> takeWhile (\<lambda>c. c \<noteq> CHR '' '') line)"
  by (induction sha256_sums) (simp_all add: QList_first_QString_split QString_endsWith_suffix)

text \<open>
  Claim C6. When both downloads succeed, \<open>base_image_info_for\<close> returns (it raises
  nothing), and its hash comes from the first line of the checksum listing whose trimmed
  content ends with the file name of the image: it is the part of that line before its
  first space (the whole line when it has no space). When no line matches, the hash is
  the empty string.
\<close>

theorem base_image_info_for_hash:
  assumes "last_modified downloader image_url = Inr t"
    and "download downloader hash_url = Inr listing"
  shows "base_image_info_for to_yyyyMMdd downloader image_url hash_url image_file =
     Inr \<lparr>base_last_modified = to_yyyyMMdd t,
          base_hash =
            (case find (\<lambda>line. suffix image_file (QString_trimmed line))
                    (QString_split (CHR 10) listing) of
               None \<Rightarrow> []
             | Some line \<Rightarrow> takeWhile (\<lambda>c. c \<noteq> CHR '' '') line)\<rparr>"
  using assms by (simp add: base_image_info_for_def base_image_info_for_loop_find)

theorem base_image_info_for_hash_witness:
  "base_image_info_for (\<lambda>t. ''20240131'')
      \<lparr>last_modified = (\<lambda>url. Inr ()),
       download = (\<lambda>url. Inr (''aa11 *other.img'' @ [CHR 10] @ ''bb22 *core.img '' @ [CHR 13, CHR 10] @ ''cc33 *core.img''))\<rparr>
      ''http://h/core.img'' ''http://h/SHA256SUMS'' ''core.img''
     = Inr \<lparr>base_last_modified = ''20240131'', base_hash = ''bb22''\<rparr>
   \<and> base_image_info_for (\<lambda>t. ''20240131'')
      \<lparr>last_modified = (\<lambda>url. Inr ()), download = (\<lambda>url. Inr ''aa11 *other.img'')\<rparr>
      ''http://h/core.img'' ''http://h/SHA256SUMS'' ''core.img''
     = Inr \<lparr>base_last_modified = ''20240131'', base_hash = []\<rparr>"
proof -
  have first: "base_image_info_for (\<lambda>t. ''20240131'')
      \<lparr>last_modified = (\<lambda>url. Inr ()),
       download = (\<lambda>url. Inr (''aa11 *other.img'' @ [CHR 10] @ ''bb22 *core.img '' @ [CHR 13, CHR 10] @ ''cc33 *core.img''))\<rparr>
      ''http://h/core.img'' ''http://h/SHA256SUMS'' ''core.img''
     = Inr \<lparr>base_last_modified = ''20240131'', base_hash = ''bb22''\<rparr>"
    by (subst base_image_info_for_hash [where t = "()"
          and listing = "''aa11 *other.img'' @ [CHR 10] @ ''bb22 *core.img '' @ [CHR 13, CHR 10] @ ''cc33 *core.img''"])
       (simp_all add: QString_trimmed_def QChar_isSpace_def suffix_to_prefix)
  have none: "base_image_info_for (\<lambda>t. ''20240131'')
      \<lparr>last_modified = (\<lambda>url. Inr ()), download = (\<lambda>url. Inr ''aa11 *other.img'')\<rparr>
      ''http://h/core.img'' ''http://h/SHA256SUMS'' ''core.img''
     = Inr \<lparr>base_last_modified = ''20240131'', base_hash = []\<rparr>"
    by (subst base_image_info_for_hash [where t = "()" and listing = "''aa11 *other.img''"])
       (simp_all add: QString_trimmed_def QChar_isSpace_def suffix_to_prefix)
  from first none show ?thesis by (rule conjI)
qed

subsection \<open>The lookup by full hash\<close>

text \<open>
  Claim C10. For every hash and every state of the host, \<open>info_for_full_hash_impl\<close>
  returns (it raises nothing) a default-constructed record, whatever the cache holds,
  and leaves the state as it was: no lock is taken and the cache is not read.
\<close>

theorem info_for_full_hash_impl_default:
  "(\<exists>info. info_for_full_hash_impl full_hash s = (Inr info, s) \<and> is_default_constructed info)
   \<and> fst (info_for_full_hash_impl full_hash s) = fst (info_for_full_hash_impl full_hash s')"
  by (simp add: info_for_full_hash_impl_def is_default_constructed_def)

subsection \<open>The lookup of a manifest\<close>

text \<open>
  Claim C7. For a remote that passes the support check and has no entry in the cache,
  \<open>manifest_from\<close> fails with the runtime error "Remote ... is unknown or unreachable."
  It reads the cache once, between taking and releasing the mutex, and leaves the cache
  as it was. The failure is not the \<open>UnsupportedRemoteException\<close> with which the
  support check fails; that one is raised before the mutex is taken.
\<close>

theorem manifest_from_unknown_remote:
  assumes "is_remote_supported env remote" and "custom_image_info s remote = None"
  shows "manifest_from env remote s =
      (Inl (RuntimeError (''Remote '' @ [CHR 0x22] @ remote @ [CHR 0x22] @
                '' is unknown or unreachable.'')),
       s\<lparr>mutex_trace := mutex_trace s @ [Acquire, Find remote, Release]\<rparr>)
    \<and> custom_image_info (snd (manifest_from env remote s)) = custom_image_info s
    \<and> fst (manifest_from env remote s) \<noteq> Inl (UnsupportedRemoteException r)
    \<and> (\<not> is_remote_supported env r \<longrightarrow>
          manifest_from env r s = (Inl (UnsupportedRemoteException r), s))"
  using assms by (simp add: manifest_from_def check_remote_is_supported_def)

theorem manifest_from_unknown_remote_witness:
  "manifest_from (example_env (\<lambda>url. Inr example_listing)) no_remote empty_state =
      (Inl (RuntimeError (''Remote '' @ [CHR 0x22, CHR 0x22] @ '' is unknown or unreachable.'')),
       empty_state\<lparr>mutex_trace := [Acquire, Find no_remote, Release]\<rparr>)
   \<and> manifest_from (example_env (\<lambda>url. Inr example_listing)) ''daily'' empty_state =
      (Inl (UnsupportedRemoteException ''daily''), empty_state)"
  using manifest_from_unknown_remote
    [of "example_env (\<lambda>url. Inr example_listing)" no_remote empty_state "''daily''"]
  by (simp add: example_env_def empty_state_def no_remote_def)

subsection \<open>The images of a remote\<close>

text \<open>
  Claim C5. For every remote and every state of the cache, \<open>all_images_for\<close> gives the
  same outcome (result and state) with \<open>allow_unsupported\<close> true and false. When the
  remote is supported and has a manifest, the result is the records of the manifest,
  in their order, whose aliases \<open>alias_verifies_image_is_supported\<close> accepts for the
  remote.
\<close>

theorem all_images_for_ignores_flag:
  "all_images_for env remote True s = all_images_for env remote False s
   \<and> (is_remote_supported env remote \<longrightarrow>
        (\<forall>manifest. custom_image_info s remote = Some manifest \<longrightarrow>
          fst (all_images_for env remote allow_unsupported s) =
            Inr (filter (\<lambda>product. alias_verifies_image_is_supported env (aliases product) remote)
                   (products manifest))))"
  by (simp add: all_images_for_def manifest_from_def check_remote_is_supported_def)

theorem all_images_for_ignores_flag_witness:
  "all_images_for (example_env (\<lambda>url. Inr example_listing)) no_remote True
      (example_state example_images)
     = all_images_for (example_env (\<lambda>url. Inr example_listing)) no_remote False
      (example_state example_images)
   \<and> fst (all_images_for (example_env (\<lambda>url. Inr example_listing)) no_remote True
      (example_state example_images))
     = Inr [example_record ''16'' [''core'', ''core16''] ''a16'',
            example_record ''20'' [''core20''] ''c20'',
            example_record ''22'' [''core22''] ''d22'']"
proof -
  let ?env = "example_env (\<lambda>url. Inr example_listing)"
  let ?s = "example_state example_images"
  note claim = all_images_for_ignores_flag [of ?env no_remote ?s True]
  have supported: "is_remote_supported ?env no_remote"
    by (simp add: example_env_def)
  have cached: "custom_image_info ?s no_remote = Some (manifest_of example_images)"
    by (simp add: example_state_def)
  have "fst (all_images_for ?env no_remote True ?s) =
      Inr (filter (\<lambda>product. alias_verifies_image_is_supported ?env (aliases product) no_remote)
             (products (manifest_of example_images)))"
    using claim supported cached by blast
  also have "\<dots> = Inr [example_record ''16'' [''core'', ''core16''] ''a16'',
            example_record ''20'' [''core20''] ''c20'',
            example_record ''22'' [''core22''] ''d22'']"
    by (simp add: example_env_def example_images_def example_record_def manifest_of_def)
  finally show ?thesis
    using claim by blast
qed

subsection \<open>The catalogue as a sorted map\<close>

lemma map_of_QMap_insert: "map_of (QMap_insert k v m) = (map_of m)(k \<mapsto> v)"
  by (induction m) (auto simp add: fun_upd_twist)

lemma set_keys_QMap_insert: "fst ` set (QMap_insert k v m) = insert k (fst ` set m)"
proof (induction m)
  case Nil
  show ?case by simp
next
  case (Cons p m)
  then show ?case by (cases p) (simp add: insert_commute)
qed

lemma sorted_QMap_insert:
  "sorted_wrt (<) (map fst m) \<Longrightarrow> sorted_wrt (<) (map fst (QMap_insert k v m))"
proof (induction m)
  case Nil
  then show ?case by simp
next
  case (Cons p m)
  have "fst ` set (QMap_insert k v m) = insert k (fst ` set m)"
    by (rule set_keys_QMap_insert)
  with Cons show ?case
    by (cases p) (auto simp add: image_iff)
qed

lemma QMap_of_snoc: "QMap_of (entries @ [(k, v)]) = QMap_insert k v (QMap_of entries)"
  by (simp add: QMap_of_def)

lemma sorted_QMap_of: "sorted_wrt (<) (map fst (QMap_of entries))"
proof (induction entries rule: rev_induct)
  case Nil
  show ?case by (simp add: QMap_of_def)
next
  case (snoc p entries)
  then show ?case by (cases p) (simp add: QMap_of_snoc sorted_QMap_insert)
qed

lemma set_keys_QMap_of: "fst ` set (QMap_of entries) = fst ` set entries"
proof (induction entries rule: rev_induct)
  case Nil
  show ?case by (simp add: QMap_of_def)
next
  case (snoc p entries)
  then show ?case by (cases p) (simp add: QMap_of_snoc set_keys_QMap_insert)
qed

lemma map_of_QMap_of: "map_of (QMap_of entries) = map_of (rev entries)"
proof (induction entries rule: rev_induct)
  case Nil
  show ?case by (simp add: QMap_of_def)
next
  case (snoc p entries)
  then show ?case by (cases p) (simp add: QMap_of_snoc map_of_QMap_insert)
qed

lemma keys_QMap_of: "map fst (QMap_of entries) = sorted_list_of_set (fst ` set entries)"
proof -
  have "sorted (map fst (QMap_of entries))" and "distinct (map fst (QMap_of entries))"
    using sorted_QMap_of [of entries] by (simp_all add: strict_sorted_iff)
  then have "sorted_list_of_set (set (map fst (QMap_of entries))) = map fst (QMap_of entries)"
    by (rule sorted_list_of_set.idem_if_sorted_distinct)
  then show ?thesis by (simp add: set_keys_QMap_of)
qed

text \<open>The catalogue of \<^verbatim>\<open>x86_64\<close>, as \<^verbatim>\<open>multipass_image_info[arch]\<close> returns it.\<close>

lemma x86_64_catalogue:
  "QMap_value multipass_image_info ''x86_64'' [] =
     [(''ubuntu-core-16-amd64.img.xz'',
       \<lparr>url_prefix = ''https://cdimage.ubuntu.com/ubuntu-core/16/stable/current/'',
        ci_aliases = [''core'', ''core16''], ci_os = ''Ubuntu'',
        ci_release = ''core-16'', release_string = ''Core 16''\<rparr>),
      (''ubuntu-core-18-amd64.img.xz'',
       \<lparr>url_prefix = ''https://cdimage.ubuntu.com/ubuntu-core/18/stable/current/'',
        ci_aliases = [''core18''], ci_os = ''Ubuntu'',
        ci_release = ''core-18'', release_string = ''Core 18''\<rparr>),
      (''ubuntu-core-20-amd64.img.xz'',
       \<lparr>url_prefix = ''https://cdimage.ubuntu.com/ubuntu-core/20/stable/current/'',
        ci_aliases = [''core20''], ci_os = ''Ubuntu'',
        ci_release = ''core-20'', release_string = ''Core 20''\<rparr>),
      (''ubuntu-core-22-amd64.img.xz'',
       \<lparr>url_prefix = ''https://cdimage.ubuntu.com/ubuntu-core/22/stable/current/'',
        ci_aliases = [''core22''], ci_os = ''Ubuntu'',
        ci_release = ''core-22'', release_string = ''Core 22''\<rparr>)]"
  by (simp add: multipass_image_info_def QMap_of_def QMap_value_def)

lemma length_x86_64_catalogue: "length (QMap_value multipass_image_info ''x86_64'' []) = 4"
  by (simp add: x86_64_catalogue)

subsection \<open>The concurrent build and the sequential one\<close>

lemma fetch_one_image_info_and_write_to_index_eq:
  "fetch_one_image_info_and_write_to_index fmt i d entry images =
     (case image_record_of fmt d entry of
        Inl e \<Rightarrow> Inl e
      | Inr r \<Rightarrow> Inr (images[i := r]))"
  by (simp add: fetch_one_image_info_and_write_to_index_def image_record_of_def Let_def
      split: sum.splits)

lemma complete_task_eq:
  "complete_task fmt d tasks i st =
     (if i < length tasks then
        (case image_record_of fmt d (tasks ! i) of
           Inl e \<Rightarrow> st\<lparr>empty_futures := (empty_futures st)[i := Some (Inl e)]\<rparr>
         | Inr r \<Rightarrow> st\<lparr>default_images := (default_images st)[i := r],
                       empty_futures := (empty_futures st)[i := Some (Inr ())]\<rparr>)
      else st)"
  by (simp add: complete_task_def fetch_one_image_info_and_write_to_index_eq split: sum.splits)

lemma run_tasks_length_futures:
  "length (empty_futures (run_tasks fmt d tasks schedule st)) = length (empty_futures st)"
  by (induction schedule arbitrary: st) (simp_all add: complete_task_eq split: sum.splits)

lemma run_tasks_length_images:
  "length (default_images (run_tasks fmt d tasks schedule st)) = length (default_images st)"
  by (induction schedule arbitrary: st) (simp_all add: complete_task_eq split: sum.splits)

text \<open>A future holds the outcome of its task as soon as the task is in the schedule.\<close>

lemma run_tasks_future_nth:
  assumes "length (empty_futures st) = length tasks" and "j < length tasks"
  shows "empty_futures (run_tasks fmt d tasks schedule st) ! j =
     (if j \<in> set schedule
      then Some (case image_record_of fmt d (tasks ! j) of Inl e \<Rightarrow> Inl e | Inr r \<Rightarrow> Inr ())
      else empty_futures st ! j)"
  using assms
proof (induction schedule arbitrary: st)
  case Nil
  then show ?case by simp
next
  case (Cons i schedule)
  have len: "length (empty_futures (complete_task fmt d tasks i st)) = length tasks"
    using Cons.prems by (simp add: complete_task_eq split: sum.splits)
  have here: "empty_futures (complete_task fmt d tasks i st) ! j =
      (if j = i
       then Some (case image_record_of fmt d (tasks ! j) of Inl e \<Rightarrow> Inl e | Inr r \<Rightarrow> Inr ())
       else empty_futures st ! j)"
    using Cons.prems by (auto simp add: complete_task_eq split: sum.splits)
  show ?case
    using Cons.IH [OF len Cons.prems(2)] here by (cases "j = i") simp_all
qed

text \<open>A slot holds the record of its task once the task has completed without failure.\<close>

lemma run_tasks_image_nth:
  assumes "length (default_images st) = length tasks" and "j < length tasks"
  shows "default_images (run_tasks fmt d tasks schedule st) ! j =
     (if j \<in> set schedule
      then (case image_record_of fmt d (tasks ! j) of
              Inl e \<Rightarrow> default_images st ! j
            | Inr r \<Rightarrow> r)
      else default_images st ! j)"
  using assms
proof (induction schedule arbitrary: st)
  case Nil
  then show ?case by simp
next
  case (Cons i schedule)
  have len: "length (default_images (complete_task fmt d tasks i st)) = length tasks"
    using Cons.prems by (simp add: complete_task_eq split: sum.splits)
  have here: "default_images (complete_task fmt d tasks i st) ! j =
      (if j = i
       then (case image_record_of fmt d (tasks ! j) of
               Inl e \<Rightarrow> default_images st ! j
             | Inr r \<Rightarrow> r)
       else default_images st ! j)"
    using Cons.prems by (auto simp add: complete_task_eq split: sum.splits)
  show ?case
    using Cons.IH [OF len Cons.prems(2)] here by (cases "j = i") (simp_all split: sum.splits)
qed

lemma join_futures_completed:
  "join_futures
      (map (\<lambda>entry. Some (case image_record_of fmt d entry of Inl e \<Rightarrow> Inl e | Inr r \<Rightarrow> Inr ()))
         tasks) =
     Some (case sequential_records fmt d tasks of Inl e \<Rightarrow> Inl e | Inr rs \<Rightarrow> Inr ())"
  by (induction tasks) (auto simp add: list_all_iff split: sum.splits)

lemma sequential_records_Inr:
  "sequential_records fmt d tasks = Inr rs \<Longrightarrow>
     length rs = length tasks \<and> (\<forall>j<length tasks. image_record_of fmt d (tasks ! j) = Inr (rs ! j))"
proof (induction tasks arbitrary: rs)
  case Nil
  then show ?case by simp
next
  case (Cons entry tasks)
  then show ?case
    by (auto split: sum.splits simp add: nth_Cons split: nat.splits)
qed

text \<open>
  Whatever the order in which the tasks complete, the build returns what the sequential
  build over the entries in key order returns.
\<close>

lemma full_image_info_for_sequential:
  assumes "is_schedule (length catalogue) schedule"
  shows "full_image_info_for fmt schedule catalogue d =
     Some (case sequential_records fmt d (toStdMap catalogue) of
             Inl e \<Rightarrow> Inl e
           | Inr rs \<Rightarrow> Inr (manifest_of rs))"
proof -
  let ?n = "length catalogue"
  let ?st0 = "\<lparr>default_images = replicate ?n default_VMImageInfo,
               empty_futures = replicate ?n None\<rparr>"
  let ?st = "run_tasks fmt d catalogue schedule ?st0"
  have all: "j < ?n \<Longrightarrow> j \<in> set schedule" for j
    using assms by (simp add: is_schedule_def)
  have futures: "empty_futures ?st =
      map (\<lambda>entry. Some (case image_record_of fmt d entry of Inl e \<Rightarrow> Inl e | Inr r \<Rightarrow> Inr ()))
        catalogue"
    by (rule nth_equalityI)
       (simp_all add: run_tasks_length_futures run_tasks_future_nth all)
  have images: "default_images ?st = rs" if "sequential_records fmt d catalogue = Inr rs" for rs
    using sequential_records_Inr [OF that]
    by (intro nth_equalityI) (simp_all add: run_tasks_length_images run_tasks_image_nth all)
  show ?thesis
    by (auto simp add: full_image_info_for_def toStdMap_def Let_def futures join_futures_completed
        manifest_of_def images split: sum.splits)
qed

lemma is_schedule_upt: "is_schedule n [0..<n]"
  by (simp add: is_schedule_def)

text \<open>The builds of the fixtures.\<close>

lemma example_build:
  "sequential_records (\<lambda>t. ''20240131'')
      \<lparr>last_modified = (\<lambda>url. Inr ()), download = (\<lambda>url. Inr example_listing)\<rparr>
      (QMap_value multipass_image_info ''x86_64'' []) = Inr example_images"
  by (simp add: x86_64_catalogue image_record_of_def base_image_info_for_def
      example_listing_def QString_endsWith_def QString_trimmed_def QChar_isSpace_def
      QList_first_def example_images_def example_record_def)

lemma example_build_no_hash:
  "sequential_records (\<lambda>t. ''20240131'')
      \<lparr>last_modified = (\<lambda>url. Inr ()), download = (\<lambda>url. Inr [])\<rparr>
      (QMap_value multipass_image_info ''x86_64'' []) = Inr example_images_no_hash"
  by (simp add: x86_64_catalogue image_record_of_def base_image_info_for_def
      QString_endsWith_def QString_trimmed_def QChar_isSpace_def
      QList_first_def example_images_no_hash_def example_record_def)

lemma example_build_failing:
  "sequential_records (\<lambda>t. ''20240131'')
      \<lparr>last_modified = (\<lambda>url. Inr ()), download = example_failing_download\<rparr>
      (QMap_value multipass_image_info ''x86_64'' []) = Inl (DownloadException ''timeout'')"
  by (simp add: x86_64_catalogue image_record_of_def base_image_info_for_def
      example_listing_def QString_endsWith_def QString_trimmed_def QChar_isSpace_def
      QList_first_def example_failing_download_def)

lemma example_schedule: "is_schedule 4 [2, 0, 3, 1]"
  by (auto simp add: is_schedule_def)

text \<open>
  Claim C9. The catalogue that \<^verbatim>\<open>QMap\<close> makes of any list of entries has the file
  names in increasing order, each once, with the entry inserted last for a name. For
  every order in which the tasks complete, the build returns, and returns what it
  returns when the tasks complete in the order of their slots; in a manifest that it
  returns, slot \<open>i\<close> holds the record of the entry with the \<open>i\<close>-th smallest file name.
\<close>

theorem manifest_slots_in_file_name_order:
  assumes "is_schedule (length (QMap_of entries)) schedule"
  shows "map fst (toStdMap (QMap_of entries)) = sorted_list_of_set (fst ` set entries)
    \<and> map_of (toStdMap (QMap_of entries)) = map_of (rev entries)
    \<and> full_image_info_for fmt schedule (QMap_of entries) d =
        full_image_info_for fmt [0..<length (QMap_of entries)] (QMap_of entries) d
    \<and> (\<exists>outcome. full_image_info_for fmt schedule (QMap_of entries) d = Some outcome \<and>
         (\<forall>manifest. outcome = Inr manifest \<longrightarrow>
            length (products manifest) = length (toStdMap (QMap_of entries)) \<and>
            (\<forall>i<length (products manifest).
               image_record_of fmt d (toStdMap (QMap_of entries) ! i) =
                 Inr (products manifest ! i))))"
proof -
  let ?tasks = "toStdMap (QMap_of entries)"
  have keys: "map fst ?tasks = sorted_list_of_set (fst ` set entries)"
    by (simp add: toStdMap_def keys_QMap_of)
  have vals: "map_of ?tasks = map_of (rev entries)"
    by (simp add: toStdMap_def map_of_QMap_of)
  have any: "full_image_info_for fmt schedule (QMap_of entries) d =
      Some (case sequential_records fmt d ?tasks of
              Inl e \<Rightarrow> Inl e
            | Inr rs \<Rightarrow> Inr (manifest_of rs))"
    using assms by (rule full_image_info_for_sequential)
  have inorder: "full_image_info_for fmt [0..<length (QMap_of entries)] (QMap_of entries) d =
      Some (case sequential_records fmt d ?tasks of
              Inl e \<Rightarrow> Inl e
            | Inr rs \<Rightarrow> Inr (manifest_of rs))"
    using is_schedule_upt by (rule full_image_info_for_sequential)
  have slots: "length (products manifest) = length ?tasks \<and>
      (\<forall>i<length (products manifest). image_record_of fmt d (?tasks ! i) = Inr (products manifest ! i))"
    if "(case sequential_records fmt d ?tasks of
              Inl e \<Rightarrow> Inl e
            | Inr rs \<Rightarrow> Inr (manifest_of rs)) = Inr manifest" for manifest
  proof (cases "sequential_records fmt d ?tasks")
    case (Inl e)
    with that show ?thesis by simp
  next
    case (Inr rs)
    with that have "manifest = manifest_of rs" by simp
    with sequential_records_Inr [OF Inr] show ?thesis
      by (simp add: manifest_of_def)
  qed
  from keys vals any inorder slots show ?thesis
    by simp
qed

theorem manifest_slots_in_file_name_order_witness:
  "is_schedule 4 [2, 0, 3, 1]
   \<and> map fst (toStdMap (QMap_of (rev (QMap_value multipass_image_info ''x86_64'' [])))) =
       [''ubuntu-core-16-amd64.img.xz'', ''ubuntu-core-18-amd64.img.xz'',
        ''ubuntu-core-20-amd64.img.xz'', ''ubuntu-core-22-amd64.img.xz'']
   \<and> full_image_info_for (\<lambda>t. ''20240131'') [2, 0, 3, 1]
        (QMap_of (rev (QMap_value multipass_image_info ''x86_64'' [])))
        \<lparr>last_modified = (\<lambda>url. Inr ()), download = (\<lambda>url. Inr example_listing)\<rparr>
       = Some (Inr (manifest_of example_images))"
proof -
  let ?entries = "rev (QMap_value multipass_image_info ''x86_64'' [])"
  let ?d = "\<lparr>last_modified = (\<lambda>url. Inr ()), download = (\<lambda>url. Inr example_listing)\<rparr>"
  have sorted_again: "QMap_of ?entries = QMap_value multipass_image_info ''x86_64'' []"
    by (simp add: x86_64_catalogue QMap_of_def)
  have schedule: "is_schedule (length (QMap_of ?entries)) [2, 0, 3, 1]"
    using example_schedule by (simp add: sorted_again length_x86_64_catalogue)
  note claim = manifest_slots_in_file_name_order
    [OF schedule, of "\<lambda>t. ''20240131''" ?d]
  have "full_image_info_for (\<lambda>t. ''20240131'') [2, 0, 3, 1] (QMap_of ?entries) ?d =
      full_image_info_for (\<lambda>t. ''20240131'') [0..<length (QMap_of ?entries)] (QMap_of ?entries) ?d"
    using claim by blast
  also have "\<dots> = Some (Inr (manifest_of example_images))"
    by (simp add: full_image_info_for_sequential [OF is_schedule_upt] sorted_again
        toStdMap_def example_build)
  finally have build: "full_image_info_for (\<lambda>t. ''20240131'') [2, 0, 3, 1] (QMap_of ?entries) ?d =
      Some (Inr (manifest_of example_images))" .
  have keys: "map fst (toStdMap (QMap_of ?entries)) =
       [''ubuntu-core-16-amd64.img.xz'', ''ubuntu-core-18-amd64.img.xz'',
        ''ubuntu-core-20-amd64.img.xz'', ''ubuntu-core-22-amd64.img.xz'']"
    unfolding sorted_again by (simp add: x86_64_catalogue toStdMap_def)
  from example_schedule keys build show ?thesis
    by (intro conjI)
qed

subsection \<open>The alias index\<close>

lemma fold_alias_upd:
  "fold (\<lambda>alias m'. m'(alias \<mapsto> i)) as m k = (if k \<in> set as then Some i else m k)"
  by (induction as arbitrary: m) auto

lemma map_aliases_loop_snoc:
  "map_aliases_loop n (images @ [img]) m =
     (if \<not> is_default_constructed img
      then fold (\<lambda>alias m'. m'(alias \<mapsto> n + length images)) (aliases img)
             ((map_aliases_loop n images m)(id_hash img \<mapsto> n + length images))
      else map_aliases_loop n images m)"
  by (induction images arbitrary: n m) simp_all

lemma map_aliases_snoc_apply:
  "map_aliases_to_vm_info_for (images @ [img]) k =
     (if \<not> is_default_constructed img \<and> k \<in> set (keys_of img) then Some (length images)
      else map_aliases_to_vm_info_for images k)"
  by (simp add: map_aliases_to_vm_info_for_def map_aliases_loop_snoc fold_alias_upd keys_of_def)

text \<open>
  The index maps a key to the last record in scan order that is not default-constructed
  and has the key as its identifier or as an alias.
\<close>

lemma map_aliases_Some_iff:
  "map_aliases_to_vm_info_for images k = Some j \<longleftrightarrow>
     j < length images \<and> \<not> is_default_constructed (images ! j) \<and> k \<in> set (keys_of (images ! j))
     \<and> (\<forall>i. j < i \<and> i < length images \<and> \<not> is_default_constructed (images ! i)
            \<longrightarrow> k \<notin> set (keys_of (images ! i)))"
proof (induction images arbitrary: j rule: rev_induct)
  case Nil
  show ?case by (simp add: map_aliases_to_vm_info_for_def)
next
  case (snoc img images)
  show ?case
  proof (cases "\<not> is_default_constructed img \<and> k \<in> set (keys_of img)")
    case True
    have "j < length images \<Longrightarrow>
        \<exists>i. j < i \<and> i < Suc (length images) \<and> \<not> is_default_constructed ((images @ [img]) ! i)
          \<and> k \<in> set (keys_of ((images @ [img]) ! i))"
      using True by (intro exI [of _ "length images"]) simp
    with True show ?thesis
      by (auto simp add: map_aliases_snoc_apply nth_append less_Suc_eq)
  next
    case False
    have "(\<forall>i. j < i \<and> i < Suc (length images) \<and> \<not> is_default_constructed ((images @ [img]) ! i)
            \<longrightarrow> k \<notin> set (keys_of ((images @ [img]) ! i)))
       \<longleftrightarrow> (\<forall>i. j < i \<and> i < length images \<and> \<not> is_default_constructed (images ! i)
            \<longrightarrow> k \<notin> set (keys_of (images ! i)))"
      using False by (auto simp add: nth_append less_Suc_eq)
    with False show ?thesis
      by (auto simp add: map_aliases_snoc_apply snoc.IH nth_append less_Suc_eq)
  qed
qed

lemma index_in_range_manifest_of: "index_in_range (manifest_of images)"
  by (simp add: index_in_range_def manifest_of_def map_aliases_Some_iff)

lemma full_image_info_for_index_in_range:
  "full_image_info_for fmt schedule catalogue d = Some (Inr manifest) \<Longrightarrow> index_in_range manifest"
  using index_in_range_manifest_of [of "default_images (run_tasks fmt d (toStdMap catalogue) schedule
        \<lparr>default_images = replicate (length catalogue) default_VMImageInfo,
          empty_futures = replicate (length catalogue) None\<rparr>)"]
  by (auto simp add: full_image_info_for_def Let_def manifest_of_def
      split: option.splits sum.splits)

lemma map_aliases_reaches:
  "i < length images \<Longrightarrow> \<not> is_default_constructed (images ! i) \<Longrightarrow>
     k \<in> set (keys_of (images ! i)) \<Longrightarrow>
     \<exists>j\<ge>i. map_aliases_to_vm_info_for images k = Some j"
proof (induction images rule: rev_induct)
  case Nil
  then show ?case by simp
next
  case (snoc img images)
  show ?case
  proof (cases "i < length images")
    case True
    with snoc obtain j where "j \<ge> i" and "map_aliases_to_vm_info_for images k = Some j"
      by (auto simp add: nth_append)
    with True show ?thesis
      by (auto simp add: map_aliases_snoc_apply)
  next
    case False
    with snoc.prems have "i = length images" by simp
    with snoc.prems show ?thesis
      by (simp add: map_aliases_snoc_apply)
  qed
qed

text \<open>
  Claim C4, as amended. A key of the index resolves to a record of the sequence that is
  not default-constructed and carries the key as its identifier or as one of its
  aliases: the last such record in scan order (last write wins). So a record that is not
  default-constructed is reached under its identifier and under each alias exactly when
  no later such record carries the same key; otherwise the key reaches the last record
  that carries it. A default-constructed record gives the index no key and keeps its
  slot: the manifest owns the sequence as it is, and the index counts positions in it.
\<close>

theorem alias_index_last_write_wins:
  "(map_aliases_to_vm_info_for images key = Some j \<longleftrightarrow>
      j < length images \<and> \<not> is_default_constructed (images ! j)
      \<and> key \<in> set (keys_of (images ! j))
      \<and> (\<forall>i. j < i \<and> i < length images \<and> \<not> is_default_constructed (images ! i)
             \<longrightarrow> key \<notin> set (keys_of (images ! i))))
   \<and> (i < length images \<and> \<not> is_default_constructed (images ! i)
        \<and> key \<in> set (keys_of (images ! i))
      \<longrightarrow> (\<exists>j'\<ge>i. map_aliases_to_vm_info_for images key = Some j'))
   \<and> products (manifest_of images) = images
   \<and> image_records (manifest_of images) = map_aliases_to_vm_info_for images"
  using map_aliases_reaches [of i images key]
  by (simp add: map_aliases_Some_iff manifest_of_def)

theorem alias_index_last_write_wins_witness:
  "map_aliases_to_vm_info_for example_images_no_hash [] = Some 3"
  using alias_index_last_write_wins [of example_images_no_hash "[]" 3 3]
  by (simp add: example_images_no_hash_def example_record_def keys_of_def
      is_default_constructed_def default_VMImageInfo_def)

text \<open>
  The claim as stated fails when the checksum listing has no line for the images: the
  four records of the catalogue then share the empty identifier. The record of Core 16
  is not default-constructed, but its identifier key reaches the record of Core 22,
  while its alias \<^verbatim>\<open>core16\<close> reaches the record itself.
\<close>

theorem alias_index_counterexample:
  "full_image_info_for (\<lambda>t. ''20240131'') [0, 1, 2, 3]
      (QMap_value multipass_image_info ''x86_64'' [])
      \<lparr>last_modified = (\<lambda>url. Inr ()), download = (\<lambda>url. Inr [])\<rparr>
     = Some (Inr (manifest_of example_images_no_hash))
   \<and> \<not> is_default_constructed (products (manifest_of example_images_no_hash) ! 0)
   \<and> id_hash (products (manifest_of example_images_no_hash) ! 0) = []
   \<and> image_records (manifest_of example_images_no_hash) [] = Some 3
   \<and> image_records (manifest_of example_images_no_hash) ''core16'' = Some 0
   \<and> products (manifest_of example_images_no_hash) ! 3
       \<noteq> products (manifest_of example_images_no_hash) ! 0"
proof -
  have "is_schedule (length (QMap_value multipass_image_info ''x86_64'' [])) [0, 1, 2, 3]"
    by (auto simp add: length_x86_64_catalogue is_schedule_def)
  then have "full_image_info_for (\<lambda>t. ''20240131'') [0, 1, 2, 3]
      (QMap_value multipass_image_info ''x86_64'' [])
      \<lparr>last_modified = (\<lambda>url. Inr ()), download = (\<lambda>url. Inr [])\<rparr>
     = Some (Inr (manifest_of example_images_no_hash))"
    by (simp add: full_image_info_for_sequential toStdMap_def example_build_no_hash)
  then show ?thesis
    by (simp add: manifest_of_def map_aliases_to_vm_info_for_def example_images_no_hash_def
        example_record_def is_default_constructed_def default_VMImageInfo_def)
qed

subsection \<open>The query for one image\<close>

text \<open>
  Claim C3. \<open>info_for\<close> checks the alias first: for an unsupported (release, remote)
  it fails at once and leaves the state as it was, so the mutex is not taken and the
  cache is not read. When the alias and the remote are supported and the cache has a
  manifest for the remote, it reads the cache once under the mutex and returns the
  record to which the index of the manifest maps the release, or the empty optional
  (no error) when the index has no such key.
\<close>

theorem info_for_lookup:
  "(\<not> is_alias_supported env (query_release query) (remote_name query) \<longrightarrow>
      info_for env query s =
        (Inl (UnsupportedAliasException (query_release query) (remote_name query)), s))
   \<and> (is_alias_supported env (query_release query) (remote_name query) \<longrightarrow>
      is_remote_supported env (remote_name query) \<longrightarrow>
      custom_image_info s (remote_name query) = Some manifest \<longrightarrow>
      index_in_range manifest \<longrightarrow>
      info_for env query s =
        (Inr (case image_records manifest (query_release query) of
                None \<Rightarrow> None
              | Some i \<Rightarrow> Some (products manifest ! i)),
         s\<lparr>mutex_trace := mutex_trace s @ [Acquire, Find (remote_name query), Release]\<rparr>))"
  by (auto simp add: info_for_def manifest_from_def check_remote_is_supported_def
      check_alias_is_supported_def deref_def index_in_range_def split: option.splits)

lemma example_index:
  "image_records (manifest_of example_images) ''core18'' = Some 1"
  "image_records (manifest_of example_images) ''b18'' = Some 1"
  "image_records (manifest_of example_images) ''core19'' = None"
  by (simp_all add: manifest_of_def map_aliases_to_vm_info_for_def example_images_def
      example_record_def is_default_constructed_def default_VMImageInfo_def)

theorem info_for_lookup_witness:
  "info_for (example_env (\<lambda>url. Inr example_listing))
      \<lparr>query_release = ''unsupported'', remote_name = no_remote\<rparr> (example_state example_images)
     = (Inl (UnsupportedAliasException ''unsupported'' no_remote), example_state example_images)
   \<and> info_for (example_env (\<lambda>url. Inr example_listing))
      \<lparr>query_release = ''core18'', remote_name = no_remote\<rparr> (example_state example_images)
     = (Inr (Some (example_record ''18'' [''core18''] ''b18'')),
        (example_state example_images)\<lparr>mutex_trace := [Acquire, Find no_remote, Release]\<rparr>)
   \<and> info_for (example_env (\<lambda>url. Inr example_listing))
      \<lparr>query_release = ''core19'', remote_name = no_remote\<rparr> (example_state example_images)
     = (Inr None,
        (example_state example_images)\<lparr>mutex_trace := [Acquire, Find no_remote, Release]\<rparr>)"
proof -
  let ?env = "example_env (\<lambda>url. Inr example_listing)"
  let ?s = "example_state example_images"
  have cached: "custom_image_info ?s no_remote = Some (manifest_of example_images)"
    by (simp add: example_state_def)
  have trace: "mutex_trace ?s = []"
    by (simp add: example_state_def)
  have remote: "is_remote_supported ?env no_remote"
    by (simp add: example_env_def)
  have known: "is_alias_supported ?env ''core18'' no_remote"
    "is_alias_supported ?env ''core19'' no_remote"
    "\<not> is_alias_supported ?env ''unsupported'' no_remote"
    by (simp_all add: example_env_def)
  have second: "products (manifest_of example_images) ! 1 = example_record ''18'' [''core18''] ''b18''"
    by (simp add: manifest_of_def example_images_def)
  have a: "info_for ?env \<lparr>query_release = ''unsupported'', remote_name = no_remote\<rparr> ?s
     = (Inl (UnsupportedAliasException ''unsupported'' no_remote), ?s)"
    using info_for_lookup [of ?env "\<lparr>query_release = ''unsupported'', remote_name = no_remote\<rparr>" ?s]
      known by simp
  have b: "info_for ?env \<lparr>query_release = ''core18'', remote_name = no_remote\<rparr> ?s
     = (Inr (Some (example_record ''18'' [''core18''] ''b18'')),
        ?s\<lparr>mutex_trace := [Acquire, Find no_remote, Release]\<rparr>)"
    using info_for_lookup [of ?env "\<lparr>query_release = ''core18'', remote_name = no_remote\<rparr>" ?s
        "manifest_of example_images"]
      known remote cached trace index_in_range_manifest_of [of example_images] example_index second
    by simp
  have c: "info_for ?env \<lparr>query_release = ''core19'', remote_name = no_remote\<rparr> ?s
     = (Inr None, ?s\<lparr>mutex_trace := [Acquire, Find no_remote, Release]\<rparr>)"
    using info_for_lookup [of ?env "\<lparr>query_release = ''core19'', remote_name = no_remote\<rparr>" ?s
        "manifest_of example_images"]
      known remote cached trace index_in_range_manifest_of [of example_images] example_index
    by simp
  from a b c show ?thesis by (intro conjI)
qed

subsection \<open>The refresh\<close>

lemma image_record_of_failure:
  assumes "fails_only_with_DownloadException d" and "image_record_of fmt d entry = Inl e"
  shows "\<exists>what. e = DownloadException what"
  using assms
  by (auto simp add: image_record_of_def base_image_info_for_def base_image_info_for_loop_find
      fails_only_with_DownloadException_def split: sum.splits)

lemma sequential_records_Inl:
  "sequential_records fmt d tasks = Inl e \<Longrightarrow>
     \<exists>entry\<in>set tasks. image_record_of fmt d entry = Inl e"
  by (induction tasks) (auto split: sum.splits)

lemma sequential_records_fails:
  "entry \<in> set tasks \<Longrightarrow> image_record_of fmt d entry = Inl e \<Longrightarrow>
     \<exists>e'. sequential_records fmt d tasks = Inl e'"
  by (induction tasks) (auto split: sum.splits)

text \<open>
  What \<open>fetch_manifests\<close> does when every task completes: it skips an unsupported
  remote, stores the manifest of a build without failure, hands a download failure to
  the failure sink, and lets any other exception through.
\<close>

lemma fetch_manifests_sequential:
  assumes "is_schedule (length (QMap_value multipass_image_info (arch env) [])) schedule"
  shows "fetch_manifests env schedule s =
     Some (if \<not> is_remote_supported env no_remote then (Inr (), s)
           else (case sequential_records (format_date env) (url_downloader env)
                        (QMap_value multipass_image_info (arch env) []) of
                   Inr rs \<Rightarrow>
                     (Inr (),
                      s\<lparr>custom_image_info := emplace no_remote (manifest_of rs) (custom_image_info s),
                        mutex_trace := mutex_trace s @ [Acquire, Emplace no_remote, Release]\<rparr>)
                 | Inl (DownloadException what) \<Rightarrow> (Inr (), on_manifest_update_failure what s)
                 | Inl (UnsupportedRemoteException r) \<Rightarrow> (Inr (), s)
                 | Inl e \<Rightarrow> (Inl e, s)))"
  by (simp add: fetch_manifests_def fetch_manifests_body_def check_remote_is_supported_def
      full_image_info_for_sequential [OF assms] toStdMap_def split: sum.splits error.splits)

text \<open>
  The manifests of the cache keep their pointers in range: \<open>fetch_manifests\<close> stores
  none but built manifests.
\<close>

lemma fetch_manifests_index_in_range:
  assumes "fetch_manifests env schedule s = Some (outcome, s')"
    and "\<And>remote manifest. custom_image_info s remote = Some manifest \<Longrightarrow> index_in_range manifest"
    and "custom_image_info s' remote = Some manifest"
  shows "index_in_range manifest"
proof (cases "is_remote_supported env no_remote")
  case False
  with assms show ?thesis
    by (simp add: fetch_manifests_def fetch_manifests_body_def check_remote_is_supported_def)
next
  case True
  show ?thesis
  proof (cases "full_image_info_for (format_date env) schedule
      (QMap_value multipass_image_info (arch env) []) (url_downloader env)")
    case None
    with True assms(1) show ?thesis
      by (simp add: fetch_manifests_def fetch_manifests_body_def check_remote_is_supported_def)
  next
    case (Some built)
    show ?thesis
    proof (cases built)
      case (Inl e)
      with True Some assms have "custom_image_info s remote = Some manifest"
        by (cases e)
          (auto simp add: fetch_manifests_def fetch_manifests_body_def
            check_remote_is_supported_def on_manifest_update_failure_def)
      then show ?thesis by (rule assms(2))
    next
      case (Inr new)
      with Some have "index_in_range new"
        using full_image_info_for_index_in_range by blast
      with True Some Inr assms show ?thesis
        by (auto simp add: fetch_manifests_def fetch_manifests_body_def
            check_remote_is_supported_def emplace_def split: option.splits if_splits)
    qed
  qed
qed

text \<open>
  Claim C2. Let the remote be supported, and let no fetch of an entry of the catalogue
  fail with anything but a download failure (so it is when one fetch alone fails, and
  when the downloader keeps its contract, lemma \<open>image_record_of_failure\<close>). If
  the fetch of one entry fails with a download failure, then, for every order in which
  the tasks complete, the build returns no manifest but the download failure of an entry;
  \<open>fetch_manifests\<close> returns normally, hands the message of that failure to
  \<open>on_manifest_update_failure\<close>, does not take the mutex and leaves the cache as it
  was, a manifest cached before included.
\<close>

theorem fetch_manifests_download_failure:
  assumes "is_schedule (length (QMap_value multipass_image_info (arch env) [])) schedule"
    and "is_remote_supported env no_remote"
    and "\<forall>other\<in>set (toStdMap (QMap_value multipass_image_info (arch env) [])). \<forall>e.
           image_record_of (format_date env) (url_downloader env) other = Inl e \<longrightarrow>
             (\<exists>what. e = DownloadException what)"
    and "entry \<in> set (toStdMap (QMap_value multipass_image_info (arch env) []))"
    and "image_record_of (format_date env) (url_downloader env) entry = Inl (DownloadException cause)"
  shows "\<exists>what s'.
      full_image_info_for (format_date env) schedule
          (QMap_value multipass_image_info (arch env) []) (url_downloader env)
        = Some (Inl (DownloadException what))
    \<and> (\<exists>failed\<in>set (toStdMap (QMap_value multipass_image_info (arch env) [])).
          image_record_of (format_date env) (url_downloader env) failed
            = Inl (DownloadException what))
    \<and> fetch_manifests env schedule s = Some (Inr (), s')
    \<and> update_failures s' = update_failures s @ [what]
    \<and> custom_image_info s' = custom_image_info s
    \<and> mutex_trace s' = mutex_trace s"
proof -
  let ?cat = "QMap_value multipass_image_info (arch env) []"
  from assms(4,5) obtain e where e: "sequential_records (format_date env) (url_downloader env) ?cat = Inl e"
    using sequential_records_fails [of entry ?cat "format_date env" "url_downloader env"]
    by (auto simp add: toStdMap_def)
  then obtain failed where failed: "failed \<in> set ?cat"
      "image_record_of (format_date env) (url_downloader env) failed = Inl e"
    using sequential_records_Inl by blast
  with assms(3) obtain what where what: "e = DownloadException what"
    by (auto simp add: toStdMap_def)
  have build: "full_image_info_for (format_date env) schedule ?cat (url_downloader env)
        = Some (Inl (DownloadException what))"
    by (simp add: full_image_info_for_sequential [OF assms(1)] toStdMap_def e what)
  have fetch: "fetch_manifests env schedule s
        = Some (Inr (), s\<lparr>update_failures := update_failures s @ [what]\<rparr>)"
    by (simp add: fetch_manifests_sequential [OF assms(1)] assms(2) e what
        on_manifest_update_failure_def)
  from failed what have "\<exists>failed\<in>set (toStdMap ?cat).
      image_record_of (format_date env) (url_downloader env) failed = Inl (DownloadException what)"
    by (auto simp add: toStdMap_def)
  with build fetch show ?thesis
    by (intro exI [of _ what] exI [of _ "s\<lparr>update_failures := update_failures s @ [what]\<rparr>"])
      simp
qed


lemma arch_example_env: "arch (example_env dl) = ''x86_64''"
  by (simp add: example_env_def)

theorem fetch_manifests_download_failure_witness:
  "fetch_manifests (example_env example_failing_download) [2, 0, 3, 1]
      (example_state example_images)
     = Some (Inr (), (example_state example_images)\<lparr>update_failures := [''timeout'']\<rparr>)"
proof -
  let ?env = "example_env example_failing_download"
  let ?s = "example_state example_images"
  let ?entry = "(''ubuntu-core-20-amd64.img.xz'',
       \<lparr>url_prefix = ''https://cdimage.ubuntu.com/ubuntu-core/20/stable/current/'',
        ci_aliases = [''core20''], ci_os = ''Ubuntu'',
        ci_release = ''core-20'', release_string = ''Core 20''\<rparr>)"
  have schedule: "is_schedule (length (QMap_value multipass_image_info (arch ?env) [])) [2, 0, 3, 1]"
    using example_schedule by (simp add: arch_example_env length_x86_64_catalogue)
  have remote: "is_remote_supported ?env no_remote"
    by (simp add: example_env_def)
  have "fails_only_with_DownloadException (url_downloader ?env)"
    by (simp add: fails_only_with_DownloadException_def example_env_def
        example_failing_download_def)
  then have contract:
    "\<forall>other\<in>set (toStdMap (QMap_value multipass_image_info (arch ?env) [])). \<forall>e.
       image_record_of (format_date ?env) (url_downloader ?env) other = Inl e \<longrightarrow>
         (\<exists>what. e = DownloadException what)"
    using image_record_of_failure by blast
  have entry: "?entry \<in> set (toStdMap (QMap_value multipass_image_info (arch ?env) []))"
    by (simp add: arch_example_env x86_64_catalogue toStdMap_def)
  have fails: "image_record_of (format_date ?env) (url_downloader ?env) ?entry
      = Inl (DownloadException ''timeout'')"
    by (simp add: image_record_of_def base_image_info_for_def example_env_def
        example_failing_download_def)
  from fetch_manifests_download_failure [OF schedule remote contract entry fails, of ?s]
  obtain what s' where
    build: "full_image_info_for (format_date ?env) [2, 0, 3, 1]
          (QMap_value multipass_image_info (arch ?env) []) (url_downloader ?env)
        = Some (Inl (DownloadException what))"
    and fetch: "fetch_manifests ?env [2, 0, 3, 1] ?s = Some (Inr (), s')"
    and sink: "update_failures s' = update_failures ?s @ [what]"
    and cache: "custom_image_info s' = custom_image_info ?s"
    and trace: "mutex_trace s' = mutex_trace ?s"
    by blast
  have "full_image_info_for (format_date ?env) [2, 0, 3, 1]
          (QMap_value multipass_image_info (arch ?env) []) (url_downloader ?env)
        = Some (Inl (DownloadException ''timeout''))"
    unfolding full_image_info_for_sequential [OF schedule]
    using example_build_failing by (simp add: toStdMap_def example_env_def)
  with build have "what = ''timeout''" by simp
  with sink cache trace have "s' = ?s\<lparr>update_failures := [''timeout'']\<rparr>"
    by (simp add: example_state_def)
  with fetch show ?thesis by simp
qed

text \<open>
  Claim C1, as amended. With a supported remote and a build that returns a manifest,
  \<open>fetch_manifests\<close> stores under the mutex: it inserts the manifest when the remote
  has no entry, and leaves an entry that the remote has as it is. So a lookup after the
  refresh of a cache without an entry for the remote, in particular after \<open>clear\<close>,
  returns the new manifest.
\<close>

theorem fetch_manifests_stores_new_manifest:
  assumes "is_remote_supported env no_remote"
    and "full_image_info_for (format_date env) schedule
           (QMap_value multipass_image_info (arch env) []) (url_downloader env)
         = Some (Inr manifest)"
  shows "\<exists>s' s''.
      fetch_manifests env schedule s = Some (Inr (), s')
    \<and> custom_image_info s' =
        (case custom_image_info s no_remote of
           None \<Rightarrow> (custom_image_info s)(no_remote \<mapsto> manifest)
         | Some old \<Rightarrow> custom_image_info s)
    \<and> mutex_trace s' = mutex_trace s @ [Acquire, Emplace no_remote, Release]
    \<and> (custom_image_info s no_remote = None \<longrightarrow>
         fst (manifest_from env no_remote s') = Inr manifest)
    \<and> fetch_manifests env schedule (clear s) = Some (Inr (), s'')
    \<and> fst (manifest_from env no_remote s'') = Inr manifest"
  using assms
  by (simp add: fetch_manifests_def fetch_manifests_body_def check_remote_is_supported_def
      emplace_def manifest_from_def clear_def split: option.splits)

lemma example_fetch:
  assumes "is_schedule 4 schedule"
  shows "full_image_info_for (format_date (example_env (\<lambda>url. Inr example_listing))) schedule
           (QMap_value multipass_image_info (arch (example_env (\<lambda>url. Inr example_listing))) [])
           (url_downloader (example_env (\<lambda>url. Inr example_listing)))
         = Some (Inr (manifest_of example_images))"
  using example_build assms
  by (simp add: full_image_info_for_sequential length_x86_64_catalogue toStdMap_def example_env_def)

theorem fetch_manifests_stores_new_manifest_witness:
  "fst (manifest_from (example_env (\<lambda>url. Inr example_listing)) no_remote
      (snd (the (fetch_manifests (example_env (\<lambda>url. Inr example_listing)) [2, 0, 3, 1]
         empty_state)))) = Inr (manifest_of example_images)
   \<and> fst (manifest_from (example_env (\<lambda>url. Inr example_listing)) no_remote
      (snd (the (fetch_manifests (example_env (\<lambda>url. Inr example_listing)) [2, 0, 3, 1]
         (clear (example_state example_images_no_hash)))))) = Inr (manifest_of example_images)"
proof -
  let ?env = "example_env (\<lambda>url. Inr example_listing)"
  have remote: "is_remote_supported ?env no_remote"
    by (simp add: example_env_def)
  have empty: "custom_image_info empty_state no_remote = None"
    by (simp add: empty_state_def)
  from fetch_manifests_stores_new_manifest
    [OF remote example_fetch [OF example_schedule], of empty_state]
  obtain s' where "fetch_manifests ?env [2, 0, 3, 1] empty_state = Some (Inr (), s')"
    and "custom_image_info empty_state no_remote = None \<longrightarrow>
      fst (manifest_from ?env no_remote s') = Inr (manifest_of example_images)"
    by auto
  with empty have fresh: "fst (manifest_from ?env no_remote
      (snd (the (fetch_manifests ?env [2, 0, 3, 1] empty_state)))) = Inr (manifest_of example_images)"
    by simp
  from fetch_manifests_stores_new_manifest
    [OF remote example_fetch [OF example_schedule], of "example_state example_images_no_hash"]
  obtain s'' where
    "fetch_manifests ?env [2, 0, 3, 1] (clear (example_state example_images_no_hash))
      = Some (Inr (), s'')"
    and "fst (manifest_from ?env no_remote s'') = Inr (manifest_of example_images)"
    by auto
  then have cleared: "fst (manifest_from ?env no_remote
      (snd (the (fetch_manifests ?env [2, 0, 3, 1]
         (clear (example_state example_images_no_hash)))))) = Inr (manifest_of example_images)"
    by simp
  from fresh cleared show ?thesis by (intro conjI)
qed

text \<open>
  The claim as stated fails on a cache that holds a manifest for the remote: the build
  succeeds with the records of the full listing, \<open>fetch_manifests\<close> returns, and the
  lookup still returns the manifest cached before, whose records differ.
\<close>

theorem fetch_manifests_overwrite_counterexample:
  "full_image_info_for (format_date (example_env (\<lambda>url. Inr example_listing))) [2, 0, 3, 1]
      (QMap_value multipass_image_info (arch (example_env (\<lambda>url. Inr example_listing))) [])
      (url_downloader (example_env (\<lambda>url. Inr example_listing)))
     = Some (Inr (manifest_of example_images))
   \<and> fetch_manifests (example_env (\<lambda>url. Inr example_listing)) [2, 0, 3, 1]
      (example_state example_images_no_hash)
     = Some (Inr (), (example_state example_images_no_hash)
          \<lparr>mutex_trace := [Acquire, Emplace no_remote, Release]\<rparr>)
   \<and> fst (manifest_from (example_env (\<lambda>url. Inr example_listing)) no_remote
        ((example_state example_images_no_hash)
          \<lparr>mutex_trace := [Acquire, Emplace no_remote, Release]\<rparr>))
     = Inr (manifest_of example_images_no_hash)
   \<and> products (manifest_of example_images_no_hash) \<noteq> products (manifest_of example_images)"
proof -
  let ?env = "example_env (\<lambda>url. Inr example_listing)"
  note build = example_fetch [OF example_schedule]
  have remote: "is_remote_supported ?env no_remote"
    by (simp add: example_env_def)
  have fetch: "fetch_manifests ?env [2, 0, 3, 1] (example_state example_images_no_hash)
     = Some (Inr (), (example_state example_images_no_hash)
          \<lparr>mutex_trace := [Acquire, Emplace no_remote, Release]\<rparr>)"
    using remote build
    by (simp add: fetch_manifests_def fetch_manifests_body_def check_remote_is_supported_def
        emplace_def example_state_def)
  have lookup: "fst (manifest_from ?env no_remote
        ((example_state example_images_no_hash)
          \<lparr>mutex_trace := [Acquire, Emplace no_remote, Release]\<rparr>))
     = Inr (manifest_of example_images_no_hash)"
    using remote by (simp add: manifest_from_def check_remote_is_supported_def example_state_def)
  have differ: "products (manifest_of example_images_no_hash) \<noteq> products (manifest_of example_images)"
    by (simp add: manifest_of_def example_images_def example_images_no_hash_def example_record_def)
  from build fetch lookup differ show ?thesis by (intro conjI)
qed

text \<open>
  Claim C8. \<open>clear\<close> followed by \<open>fetch_manifests\<close>, done twice with the same
  catalogue and downloader, in whatever orders the tasks complete: both refreshes
  return, with the same outcome, and the cache after the second equals the cache after
  the first (the manifests are equal by value, records and index).
\<close>

theorem clear_then_refresh_idempotent:
  assumes "is_schedule (length (QMap_value multipass_image_info (arch env) [])) schedule"
    and "is_schedule (length (QMap_value multipass_image_info (arch env) [])) schedule'"
  shows "\<exists>outcome s1 s2.
      fetch_manifests env schedule (clear s) = Some (outcome, s1)
    \<and> fetch_manifests env schedule' (clear s1) = Some (outcome, s2)
    \<and> custom_image_info s2 = custom_image_info s1"
proof -
  have same: "custom_image_info (clear s') = Map.empty" for s'
    by (simp add: clear_def)
  show ?thesis
    unfolding fetch_manifests_sequential [OF assms(1)] fetch_manifests_sequential [OF assms(2)]
    by (auto simp add: same on_manifest_update_failure_def clear_def
        split: sum.splits error.splits)
qed

theorem clear_then_refresh_idempotent_witness:
  "custom_image_info (snd (the (fetch_manifests (example_env (\<lambda>url. Inr example_listing))
       [0, 1, 2, 3]
       (clear (snd (the (fetch_manifests (example_env (\<lambda>url. Inr example_listing)) [2, 0, 3, 1]
          (clear (example_state example_images_no_hash)))))))))
   = custom_image_info (snd (the (fetch_manifests (example_env (\<lambda>url. Inr example_listing))
       [2, 0, 3, 1] (clear (example_state example_images_no_hash)))))"
proof -
  let ?env = "example_env (\<lambda>url. Inr example_listing)"
  have first: "is_schedule (length (QMap_value multipass_image_info (arch ?env) [])) [2, 0, 3, 1]"
    using example_schedule by (simp add: arch_example_env length_x86_64_catalogue)
  have second: "is_schedule (length (QMap_value multipass_image_info (arch ?env) [])) [0, 1, 2, 3]"
    by (auto simp add: arch_example_env length_x86_64_catalogue is_schedule_def)
  from clear_then_refresh_idempotent [OF first second, of "example_state example_images_no_hash"]
  obtain outcome s1 s2 where
    "fetch_manifests ?env [2, 0, 3, 1] (clear (example_state example_images_no_hash))
       = Some (outcome, s1)"
    "fetch_manifests ?env [0, 1, 2, 3] (clear s1) = Some (outcome, s2)"
    "custom_image_info s2 = custom_image_info s1"
    by blast
  then show ?thesis by simp
qed

end
